theory Spec2Isabelle
  imports Main
begin

section \<open>PHP built-ins used by api/waitlist.php\<close>

text \<open>
  PHP strings are byte strings, so they are modelled as \<open>string\<close> (a list of 8-bit
  characters). The built-ins below are the ones the endpoint calls whose behaviour is
  fixed by their documentation; the validating filters and the parser of enclosed CSV
  fields are taken as parameters (record \<open>php\<close> further down).
\<close>

definition LF :: char where "LF = CHR 0x0A"
definition CR :: char where "CR = CHR 0x0D"
definition delimiter :: char where "delimiter = CHR '',''"
definition enclosure :: char where "enclosure = CHR 0x22"
definition escape_char :: char where "escape_char = CHR 0x5C"

text \<open>\<open>trim($s)\<close> strips space, tab, line feed, carriage return, NUL and vertical tab
  from both ends.\<close>

definition trim_chars :: "char list" where
  "trim_chars = [CHR 0x20, CHR 0x09, CHR 0x0A, CHR 0x0D, CHR 0x00, CHR 0x0B]"

definition trim :: "string \<Rightarrow> string" where
  "trim s = rev (dropWhile (\<lambda>c. c \<in> set trim_chars)
                  (rev (dropWhile (\<lambda>c. c \<in> set trim_chars) s)))"

text \<open>\<open>filter_var($s, FILTER_SANITIZE_EMAIL)\<close> removes every character except letters,
  digits and the punctuation of \<open>allowed_list\<close>. No case folding takes place.\<close>

definition LOWALPHA :: string where "LOWALPHA = ''abcdefghijklmnopqrstuvwxyz''"
definition HIALPHA :: string where "HIALPHA = ''ABCDEFGHIJKLMNOPQRSTUVWXYZ''"
definition DIGIT :: string where "DIGIT = ''0123456789''"

definition allowed_list :: string where
  "allowed_list = LOWALPHA @ HIALPHA @ DIGIT @
     ''!#$%&'' @ [CHR 0x27] @ ''*+-=?^_'' @ [CHR 0x60] @ ''{|}~@.[]''"

definition filter_sanitize_email :: "string \<Rightarrow> string" where
  "filter_sanitize_email s = filter (\<lambda>c. c \<in> set allowed_list) s"

text \<open>\<open>explode(',', $s)\<close>: the pieces between separators; never an empty array.\<close>

fun explode_acc :: "char \<Rightarrow> string \<Rightarrow> string \<Rightarrow> string list" where
  "explode_acc sep cur [] = [cur]"
| "explode_acc sep cur (c # cs) =
     (if c = sep then cur # explode_acc sep [] cs else explode_acc sep (cur @ [c]) cs)"

definition explode :: "char \<Rightarrow> string \<Rightarrow> string list" where
  "explode sep s = explode_acc sep [] s"

definition substr0 :: "string \<Rightarrow> nat \<Rightarrow> string" where
  \<comment> \<open>\<open>substr($s, 0, $n)\<close>\<close>
  "substr0 s n = take n s"

text \<open>Decimal digits of a number, as string conversion and template strings give them.\<close>

fun show_nat :: "nat \<Rightarrow> string" where
  "show_nat n =
     (if n < 10 then [char_of (48 + n)] else show_nat (n div 10) @ [char_of (48 + n mod 10)])"

declare show_nat.simps [simp del]

subsection \<open>Writing a CSV row: \<open>fputcsv\<close>\<close>

text \<open>A field is enclosed in double quotes when it contains the delimiter, the
  enclosure, the escape character, a line break, a tab or a space. Inside an enclosed
  field the enclosure is doubled unless the escape character precedes it.\<close>

definition needs_enclosure :: "string \<Rightarrow> bool" where
  "needs_enclosure f =
     list_ex (\<lambda>c. c \<in> set [delimiter, enclosure, escape_char, LF, CR, CHR 0x09, CHR 0x20]) f"

fun enclose_chars :: "bool \<Rightarrow> string \<Rightarrow> string" where
  "enclose_chars escaped [] = []"
| "enclose_chars escaped (c # cs) =
     (if c = escape_char then c # enclose_chars True cs
      else if \<not> escaped \<and> c = enclosure then enclosure # c # enclose_chars escaped cs
      else c # enclose_chars False cs)"

definition csv_field :: "string \<Rightarrow> string" where
  "csv_field f =
     (if needs_enclosure f then enclosure # enclose_chars False f @ [enclosure] else f)"

fun csv_join :: "string list \<Rightarrow> string" where
  "csv_join [] = []"
| "csv_join [f] = csv_field f"
| "csv_join (f # g # fs) = csv_field f @ delimiter # csv_join (g # fs)"

definition fputcsv :: "string list \<Rightarrow> string" where
  \<comment> \<open>the bytes that \<open>fputcsv($file, $fields)\<close> appends\<close>
  "fputcsv fields = csv_join fields @ [LF]"

subsection \<open>Reading the file by lines: \<open>file\<close>\<close>

text \<open>\<open>file($f)\<close> returns the lines of the file, each with its line feed; a last line
  without line feed is returned as it is, and an empty file has no lines.\<close>

fun split_eol :: "string \<Rightarrow> string \<Rightarrow> string list" where
  "split_eol cur [] = (if cur = [] then [] else [cur])"
| "split_eol cur (c # cs) =
     (if c = LF then (cur @ [c]) # split_eol [] cs else split_eol (cur @ [c]) cs)"

definition php_file :: "string \<Rightarrow> string list" where
  "php_file content = split_eol [] content"

text \<open>With \<open>FILE_IGNORE_NEW_LINES | FILE_SKIP_EMPTY_LINES\<close> the line feed (and a carriage
  return before it) is dropped from every terminated line, and a terminated line that is
  empty afterwards is skipped.\<close>

definition chop_eol :: "string \<Rightarrow> string option" where
  "chop_eol l =
     (case rev l of
        [] \<Rightarrow> None
      | c # r \<Rightarrow>
          if c = LF then
            (case r of
               [] \<Rightarrow> None
             | d # r' \<Rightarrow> if d = CR then (if r' = [] then None else Some (rev r'))
                         else Some (rev r))
          else Some l)"

definition php_file_skip_empty :: "string \<Rightarrow> string list" where
  "php_file_skip_empty content = List.map_filter chop_eol (php_file content)"

subsection \<open>Parsing a line: the first column of \<open>str_getcsv\<close>\<close>

text \<open>Only \<open>$row[0]\<close> is read by the endpoint. The parser first drops one trailing line
  ending. A blank line yields a single null entry. A field that starts with the
  enclosure (possibly after white space) is parsed by the enclosed-field automaton,
  which is a parameter here; any other first field is the text before the first
  delimiter, again without a trailing line ending.\<close>

definition strip_eol :: "string \<Rightarrow> string" where
  "strip_eol s =
     (case rev s of
        [] \<Rightarrow> []
      | c # r \<Rightarrow>
          if c = LF then (case r of [] \<Rightarrow> [] | d # r' \<Rightarrow> if d = CR then rev r' else rev r)
          else if c = CR then rev r
          else s)"

definition isspace :: "char \<Rightarrow> bool" where
  "isspace c = (c \<in> set [CHR 0x20, CHR 0x09, CHR 0x0A, CHR 0x0B, CHR 0x0C, CHR 0x0D])"

definition str_getcsv0 :: "(string \<Rightarrow> string option) \<Rightarrow> string \<Rightarrow> string option" where
  "str_getcsv0 enclosed line =
     (let buf = strip_eol line;
          tmp = dropWhile (\<lambda>c. c \<noteq> delimiter \<and> isspace c) buf
      in case tmp of
           c # _ \<Rightarrow>
             if c = enclosure then enclosed line
             else Some (strip_eol (takeWhile (\<lambda>c. c \<noteq> delimiter) buf))
         | [] \<Rightarrow>
             if buf = [] then None
             else Some (strip_eol (takeWhile (\<lambda>c. c \<noteq> delimiter) buf)))"

section \<open>The Signup Ledger Service: api/waitlist.php\<close>

text \<open>The parts of the PHP runtime that one run of the script depends on and that are
  not modelled above: the two validating filters, the enclosed-field parser, the clock,
  and whether the storage calls succeed.\<close>

record php =
  validate_email :: "string \<Rightarrow> bool"   \<comment> \<open>\<open>filter_var(_, FILTER_VALIDATE_EMAIL)\<close> is truthy\<close>
  validate_ip :: "string \<Rightarrow> bool"      \<comment> \<open>\<open>filter_var(_, FILTER_VALIDATE_IP)\<close> is truthy\<close>
  getcsv_enclosed :: "string \<Rightarrow> string option"
  date_now :: string                    \<comment> \<open>\<open>date('Y-m-d H:i:s')\<close>\<close>
  fopen_ok :: bool                      \<comment> \<open>\<open>fopen($csvFile, 'a')\<close> returns a handle\<close>
  fputcsv_ok :: bool                    \<comment> \<open>the \<open>fputcsv\<close> calls of this run write their bytes\<close>

text \<open>A value that \<open>json_decode\<close> can put in a field: a string, an integer, a float (kept
  as the text that PHP's string conversion gives it), a boolean, or a PHP array (a JSON
  array or object, whose elements the script never reads). Null is not listed: \<open>isset\<close>
  is false for it.\<close>

datatype json_value = JString string | JInt int | JFloat string | JBool bool | JArray

text \<open>The string that a scalar becomes where PHP 8 coerces an argument to \<open>string\<close>, as
  \<open>trim\<close> does at line 36; for an array there is none and the call throws a
  \<open>TypeError\<close>.\<close>

definition scalar_text :: "json_value \<Rightarrow> string option" where
  "scalar_text v =
     (case v of
        JString s \<Rightarrow> Some s
      | JInt i \<Rightarrow> Some (if i < 0 then CHR ''-'' # show_nat (nat (- i)) else show_nat (nat i))
      | JFloat repr \<Rightarrow> Some repr
      | JBool b \<Rightarrow> Some (if b then ''1'' else [])
      | JArray \<Rightarrow> None)"

text \<open>The string that \<open>fputcsv\<close> writes for a field: an array is written as \<open>Array\<close>.\<close>

definition csv_text :: "json_value \<Rightarrow> string" where
  "csv_text v = (case scalar_text v of Some s \<Rightarrow> s | None \<Rightarrow> ''Array'')"

text \<open>The decoded JSON body: \<open>None\<close> when \<open>json_decode\<close> gives null or a value that is
  not an object (for all of these line 30 answers ``Email is required''); a field is
  \<open>None\<close> when \<open>isset\<close> is false for it.\<close>

record payload =
  email :: "json_value option"
  source :: "json_value option"

record request =
  request_method :: string
  input :: "payload option"
  http_user_agent :: "string option"
  http_x_forwarded_for :: "string option"
  remote_addr :: "string option"

text \<open>The JSON object of a response (also the result object of the widget, which adds
  \<open>demoMode\<close>); an absent key is \<open>None\<close>.\<close>

record json_result =
  success :: bool
  message :: string
  alreadyExists :: "bool option"
  waitlistPosition :: "nat option"
  timestamp :: "string option"
  demoMode :: "bool option"

record response =
  status :: nat
  body :: "json_result option"

text \<open>The ledger file \<open>../data/waitlist.csv\<close>: \<open>None\<close> when it does not exist, otherwise
  its bytes.\<close>

type_synonym ledger = "string option"

text \<open>What one run does: the response, the ledger afterwards, and the lines passed to
  \<open>error_log\<close>.\<close>

type_synonym outcome = "response \<times> ledger \<times> string list"

definition maxFileSize :: nat where
  "maxFileSize = 10 * 1024 * 1024"

definition failure :: "string \<Rightarrow> json_result" where
  "failure msg = \<lparr>success = False, message = msg, alreadyExists = None,
     waitlistPosition = None, timestamp = None, demoMode = None\<rparr>"

definition already_message :: string where
  "already_message =
     ''You're already on the waitlist! We'll notify you when Kenz Tasks launches.''"

definition welcome_message :: string where
  "welcome_message = ''Welcome to the waitlist! We'll notify you when Kenz Tasks launches.''"

definition csv_header :: "string list" where
  "csv_header = [''email'', ''timestamp'', ''source'', ''ip_address'', ''user_agent'']"

text \<open>Lines 58--68: the first columns of the parsed lines, and the search loop.\<close>

definition existingEmails :: "php \<Rightarrow> string \<Rightarrow> string option list" where
  "existingEmails p content = map (str_getcsv0 (getcsv_enclosed p)) (php_file content)"

definition email_exists :: "php \<Rightarrow> string \<Rightarrow> string \<Rightarrow> bool" where
  "email_exists p em content = list_ex (\<lambda>row0. row0 = Some em) (existingEmails p content)"

text \<open>Lines 83--87: the client address.\<close>

definition ipAddress :: "php \<Rightarrow> request \<Rightarrow> string" where
  "ipAddress p rq =
     (let raw = (case http_x_forwarded_for rq of
                   Some x \<Rightarrow> x
                 | None \<Rightarrow> (case remote_addr rq of Some a \<Rightarrow> a | None \<Rightarrow> []));
          first = (case explode delimiter raw of x # _ \<Rightarrow> x | [] \<Rightarrow> [])
      in if validate_ip p (trim first) then trim first else ''unknown'')"

text \<open>Lines 80--96: the row to append.\<close>

definition csvRow :: "php \<Rightarrow> request \<Rightarrow> payload \<Rightarrow> string \<Rightarrow> string list" where
  "csvRow p rq inp em =
     [em,
      date_now p,
      (case source inp of Some v \<Rightarrow> csv_text v | None \<Rightarrow> ''landing_page''),
      ipAddress p rq,
      substr0 (case http_user_agent rq of Some u \<Rightarrow> u | None \<Rightarrow> []) 200]"

text \<open>Lines 116--120: the position reported after the write.\<close>

definition waitlistCount :: "ledger \<Rightarrow> nat" where
  "waitlistCount led =
     (case led of
        None \<Rightarrow> 0
      | Some content \<Rightarrow> nat (max 0 (int (length (php_file_skip_empty content)) - 1)))"

text \<open>Lines 98--131: open for appending (which creates the file), write the header when
  the file is empty, write the row, count, log and answer. Whether the data directory
  exists or can be made (lines 51--54) shows only in whether \<open>fopen\<close> succeeds.\<close>

definition append_signup :: "php \<Rightarrow> request \<Rightarrow> payload \<Rightarrow> string \<Rightarrow> ledger \<Rightarrow> outcome" where
  "append_signup p rq inp em led =
     (if \<not> fopen_ok p then
        (\<lparr>status = 500, body = Some (failure ''Something went wrong. Please try again later.'')\<rparr>,
         led, [''Waitlist API error: Unable to open waitlist file''])
      else
        let content = (case led of None \<Rightarrow> [] | Some c \<Rightarrow> c) in
        if \<not> fputcsv_ok p then
          (\<lparr>status = 500, body = Some (failure ''Something went wrong. Please try again later.'')\<rparr>,
           Some content, [''Waitlist API error: Unable to write to waitlist file''])
        else
          let with_header = (if length content = 0 then content @ fputcsv csv_header else content);
              written = with_header @ fputcsv (csvRow p rq inp em)
          in (\<lparr>status = 200,
               body = Some \<lparr>success = True, message = welcome_message, alreadyExists = None,
                 waitlistPosition = Some (waitlistCount (Some written)),
                 timestamp = Some (date_now p), demoMode = None\<rparr>\<rparr>,
              Some written,
              [''Waitlist signup: '' @ em @ '' from '' @ ipAddress p rq]))"

text \<open>Lines 56--77: the duplicate check, then the size check, both only when the file
  exists.\<close>

definition store_signup :: "php \<Rightarrow> request \<Rightarrow> payload \<Rightarrow> string \<Rightarrow> ledger \<Rightarrow> outcome" where
  "store_signup p rq inp em led =
     (case led of
        Some content \<Rightarrow>
          if email_exists p em content then
            (\<lparr>status = 200,
              body = Some \<lparr>success = True, message = already_message, alreadyExists = Some True,
                waitlistPosition = None, timestamp = None, demoMode = None\<rparr>\<rparr>,
             led, [])
          else if length content > maxFileSize then
            (\<lparr>status = 500, body = Some (failure ''Service temporarily unavailable'')\<rparr>,
             led, [''Waitlist CSV file size exceeded limit''])
          else append_signup p rq inp em led
      | None \<Rightarrow> append_signup p rq inp em led)"

text \<open>Line 36: the email as it is validated, compared and stored.\<close>

definition normalize_email :: "string \<Rightarrow> string" where
  "normalize_email raw = filter_sanitize_email (trim raw)"

text \<open>The whole script, lines 13--140. Line 36 is outside the \<open>try\<close> block: when the email
  is an array, \<open>trim\<close> throws, nothing catches the error, and the run ends with status 500
  and no body of the script's.\<close>

definition waitlist_php :: "php \<Rightarrow> request \<Rightarrow> ledger \<Rightarrow> outcome" where
  "waitlist_php p rq led =
     (if request_method rq = ''OPTIONS'' then (\<lparr>status = 200, body = None\<rparr>, led, [])
      else if request_method rq \<noteq> ''POST'' then
        (\<lparr>status = 405, body = Some (failure ''Method not allowed'')\<rparr>, led, [])
      else
        case input rq of
          None \<Rightarrow> (\<lparr>status = 400, body = Some (failure ''Email is required'')\<rparr>, led, [])
        | Some inp \<Rightarrow>
            (case email inp of
               None \<Rightarrow> (\<lparr>status = 400, body = Some (failure ''Email is required'')\<rparr>, led, [])
             | Some v \<Rightarrow>
                 (case scalar_text v of
                    None \<Rightarrow> (\<lparr>status = 500, body = None\<rparr>, led, [])
                  | Some raw \<Rightarrow>
                      let em = normalize_email raw in
                      if \<not> validate_email p em then
                        (\<lparr>status = 400, body = Some (failure ''Invalid email format'')\<rparr>,
                         led, [])
                      else store_signup p rq inp em led)))"

section \<open>The Client Intake Widget: \<open>submitToWaitlist\<close>\<close>

text \<open>What \<open>fetch\<close> gives: a rejected promise (the endpoint is unreachable), or a
  response with its status and, when the body parses as JSON, the decoded object.\<close>

datatype fetch_result = NetworkError | HttpResponse nat "json_result option"

definition response_ok :: "nat \<Rightarrow> bool" where
  "response_ok st = (200 \<le> st \<and> st \<le> 299)"

record demo_entry =
  entry_timestamp :: string
  entry_source :: string
  entry_position :: nat

text \<open>The two keys of \<open>localStorage\<close> that the widget uses; \<open>None\<close> when
  \<open>getItem\<close> returns null. A stored value is the JSON the widget itself wrote: an array
  of strings, and an object from emails to entries.\<close>

record localStorage =
  waitlist_emails :: "string list option"
  waitlist_data :: "(string \<rightharpoonup> demo_entry) option"

record browser =
  fetched :: fetch_result
  iso_entry :: string    \<comment> \<open>\<open>new Date().toISOString()\<close> for the stored entry\<close>
  iso_result :: string   \<comment> \<open>\<open>new Date().toISOString()\<close> for the result\<close>

definition demo_welcome :: "nat \<Rightarrow> string" where
  \<comment> \<open>the template string of the source file, byte for byte\<close>
  "demo_welcome n =
     [CHR 0xC4, CHR 0x9F, CHR 0xC5, CHR 0xB8, CHR 0xE2, CHR 0x80, CHR 0xB0] @
     '' Welcome to the waitlist! You're #'' @ show_nat n @
     '' in line. We'll notify you when Kenz Tasks launches.''"

text \<open>The body of the \<open>setTimeout\<close> callback in the \<open>catch\<close> branch.\<close>

definition demo_simulation :: "browser \<Rightarrow> string \<Rightarrow> localStorage \<Rightarrow> json_result \<times> localStorage" where
  "demo_simulation b em ls =
     (let existing = (case waitlist_emails ls of None \<Rightarrow> [] | Some l \<Rightarrow> l) in
      if em \<in> set existing then
        (\<lparr>success = True, message = already_message, alreadyExists = Some True,
          waitlistPosition = Some (length existing), timestamp = None, demoMode = None\<rparr>,
         ls)
      else
        let pushed = existing @ [em];
            waitlistData = (case waitlist_data ls of None \<Rightarrow> Map.empty | Some d \<Rightarrow> d);
            entry = \<lparr>entry_timestamp = iso_entry b, entry_source = ''github_pages_demo'',
                      entry_position = length pushed\<rparr>
        in (\<lparr>success = True, message = demo_welcome (length pushed), alreadyExists = None,
              waitlistPosition = Some (length pushed), timestamp = Some (iso_result b),
              demoMode = Some True\<rparr>,
            \<lparr>waitlist_emails = Some pushed, waitlist_data = Some (waitlistData(em \<mapsto> entry))\<rparr>))"

text \<open>\<open>submitToWaitlist\<close>: the \<open>try\<close> block returns the decoded body of an OK response;
  a rejected fetch, a status outside 200--299 and a body that is not JSON all throw into
  the \<open>catch\<close> block.\<close>

definition submitToWaitlist :: "browser \<Rightarrow> string \<Rightarrow> localStorage \<Rightarrow> json_result \<times> localStorage" where
  "submitToWaitlist b em ls =
     (case fetched b of
        NetworkError \<Rightarrow> demo_simulation b em ls
      | HttpResponse st js \<Rightarrow>
          if \<not> response_ok st then demo_simulation b em ls
          else (case js of Some result \<Rightarrow> (result, ls) | None \<Rightarrow> demo_simulation b em ls))"

section \<open>Concrete runtimes and requests\<close>

text \<open>A recogniser for plain addresses \<open>local@label.label...\<close> over letters and digits,
  all of which \<open>FILTER_VALIDATE_EMAIL\<close> accepts, and one for dotted quads; they stand for
  the PHP filters where a run is evaluated on concrete data.\<close>

definition alnum :: "char \<Rightarrow> bool" where
  "alnum c = (c \<in> set (LOWALPHA @ HIALPHA @ DIGIT))"

definition plain_label :: "string \<Rightarrow> bool" where
  "plain_label l = (l \<noteq> [] \<and> length l \<le> 63 \<and> list_all alnum l)"

definition plain_address :: "string \<Rightarrow> bool" where
  "plain_address s =
     (case explode (CHR ''@'') s of
        [local, domain] \<Rightarrow>
          local \<noteq> [] \<and> length local \<le> 64 \<and> list_all alnum local \<and> length s \<le> 254 \<and>
          (let labels = explode (CHR ''.'') domain
           in 2 \<le> length labels \<and> list_all plain_label labels \<and>
              list_all (\<lambda>c. c \<in> set (LOWALPHA @ HIALPHA)) (last labels))
      | _ \<Rightarrow> False)"

fun octet :: "string \<Rightarrow> bool" where
  "octet [a] = (a \<in> set DIGIT)"
| "octet [a, b] = (a \<in> set ''123456789'' \<and> b \<in> set DIGIT)"
| "octet [a, b, c] =
     (a = CHR ''1'' \<and> b \<in> set DIGIT \<and> c \<in> set DIGIT \<or>
      a = CHR ''2'' \<and> b \<in> set ''01234'' \<and> c \<in> set DIGIT \<or>
      a = CHR ''2'' \<and> b = CHR ''5'' \<and> c \<in> set ''012345'')"
| "octet _ = False"

definition dotted_quad :: "string \<Rightarrow> bool" where
  "dotted_quad s =
     (let parts = explode (CHR ''.'') s in length parts = 4 \<and> list_all octet parts)"

definition php0 :: php where
  "php0 = \<lparr>validate_email = plain_address, validate_ip = dotted_quad,
     getcsv_enclosed = (\<lambda>_. None), date_now = ''2024-01-15 10:30:00'',
     fopen_ok = True, fputcsv_ok = True\<rparr>"

definition post :: "string \<Rightarrow> request" where
  "post raw = \<lparr>request_method = ''POST'',
     input = Some \<lparr>email = Some (JString raw), source = Some (JString ''landing_page'')\<rparr>,
     http_user_agent = Some ''Mozilla/5.0'', http_x_forwarded_for = None,
     remote_addr = Some ''203.0.113.7''\<rparr>"

definition post_from :: "string \<Rightarrow> string \<Rightarrow> request" where
  \<comment> \<open>a submission whose \<open>source\<close> field is chosen by the client\<close>
  "post_from raw src =
     (post raw)\<lparr>input := Some \<lparr>email = Some (JString raw), source = Some (JString src)\<rparr>\<rparr>"

definition post_array :: request where
  \<comment> \<open>the body \<open>{"email": ["user@example.com"]}\<close>\<close>
  "post_array = (post [])\<lparr>input := Some \<lparr>email = Some JArray, source = None\<rparr>\<rparr>"

definition browser_with :: "fetch_result \<Rightarrow> browser" where
  "browser_with f = \<lparr>fetched = f, iso_entry = ''2024-01-15T10:30:00.000Z'',
     iso_result = ''2024-01-15T10:30:00.001Z''\<rparr>"

definition stored_emails :: "string list \<Rightarrow> localStorage" where
  "stored_emails l = \<lparr>waitlist_emails = Some l, waitlist_data = None\<rparr>"

section \<open>Vocabulary of the properties\<close>

text \<open>A string over the characters that survive \<open>FILTER_SANITIZE_EMAIL\<close>.\<close>

definition plain :: "string \<Rightarrow> bool" where
  "plain em = list_all (\<lambda>c. c \<in> set allowed_list) em"

definition ends_with_eol :: "string \<Rightarrow> bool" where
  "ends_with_eol c = (c = [] \<or> last c = LF)"

text \<open>A ledger as the script leaves it: absent, empty (created but not yet written), or
  starting with the header row and ending with a line feed.\<close>

definition well_formed :: "ledger \<Rightarrow> bool" where
  "well_formed led =
     (case led of
        None \<Rightarrow> True
      | Some c \<Rightarrow>
          c = [] \<or> (take (length (fputcsv csv_header)) c = fputcsv csv_header \<and> last c = LF))"

text \<open>A row none of whose fields contains a line feed occupies one line of the file.\<close>

definition single_line :: "string list \<Rightarrow> bool" where
  "single_line row = list_all (\<lambda>f. LF \<notin> set f) row"

text \<open>Reading an outcome.\<close>

definition ledger_after :: "outcome \<Rightarrow> ledger" where
  "ledger_after out = fst (snd out)"

definition reply :: "outcome \<Rightarrow> json_result option" where
  "reply out = body (fst out)"

text \<open>The submission was accepted: the reply carries a position.\<close>

definition accepted :: "outcome \<Rightarrow> bool" where
  "accepted out =
     (case reply out of None \<Rightarrow> False | Some b \<Rightarrow> success b \<and> waitlistPosition b \<noteq> None)"

text \<open>The email of a request as \<open>trim\<close> receives it: none when the field is not set or is
  an array.\<close>

definition email_arg :: "payload \<Rightarrow> string option" where
  "email_arg inp = (case email inp of None \<Rightarrow> None | Some v \<Rightarrow> scalar_text v)"

definition submitted_email :: "request \<Rightarrow> string option" where
  "submitted_email rq = (case input rq of None \<Rightarrow> None | Some inp \<Rightarrow> email_arg inp)"

text \<open>Ledgers of a given size: the header row followed by one long line.\<close>

definition filler :: "nat \<Rightarrow> string" where
  "filler k = replicate k (CHR ''x'') @ [LF]"

definition ledger_at_bound :: string where
  "ledger_at_bound = fputcsv csv_header @ filler 10485714"

definition ledger_over_bound :: string where
  "ledger_over_bound = fputcsv csv_header @ filler 10485715"

definition ledger_over_bound_with_user :: string where
  "ledger_over_bound_with_user =
     fputcsv csv_header @
     fputcsv [''user@example.com'', ''2024-01-15 10:30:00'', ''landing_page'', ''203.0.113.7'',
              ''Mozilla/5.0''] @
     filler 10485715"

text \<open>What precedes the new row in the file after an accepted submission: the header row
  when the file was absent or empty, else the previous content.\<close>

definition before_row :: "ledger \<Rightarrow> string" where
  "before_row led =
     (case led of None \<Rightarrow> fputcsv csv_header
      | Some c \<Rightarrow> if c = [] then fputcsv csv_header else c)"

text \<open>The records of a ledger. The file that holds the records \<open>rows\<close> is the header row
  followed by what \<open>fputcsv\<close> wrote for each of them, in order; with no records it may
  also be absent or empty. A record has the five fields of the header.\<close>

definition ledger_of :: "string list list \<Rightarrow> string" where
  "ledger_of rows = fputcsv csv_header @ concat (map fputcsv rows)"

definition holds :: "ledger \<Rightarrow> string list list \<Rightarrow> bool" where
  "holds led rows =
     (list_all (\<lambda>r. length r = 5) rows \<and>
      (case led of
         None \<Rightarrow> rows = []
       | Some c \<Rightarrow> c = [] \<and> rows = [] \<or> c = ledger_of rows))"

text \<open>The ledger after the submission of \<open>USER@Example.com\<close> (with a trailing space) to
  an absent ledger, and the row that a following submission of \<open>user@example.com\<close>
  appends.\<close>

definition first_row :: "string list" where
  "first_row = [''USER@Example.com'', ''2024-01-15 10:30:00'', ''landing_page'',
     ''203.0.113.7'', ''Mozilla/5.0'']"

definition second_row :: "string list" where
  "second_row = [''user@example.com'', ''2024-01-15 10:30:00'', ''landing_page'',
     ''203.0.113.7'', ''Mozilla/5.0'']"

definition ledger_one :: string where
  "ledger_one = fputcsv csv_header @ fputcsv first_row"

text \<open>A submission that arrives through a proxy, with a long agent string.\<close>

definition proxied :: request where
  "proxied = (post ''user@example.com'')
     \<lparr>http_user_agent := Some (replicate 300 (CHR ''A'')),
      http_x_forwarded_for := Some ''198.51.100.4, 10.0.0.1''\<rparr>"

section \<open>Facts about the built-ins\<close>

lemma allowed_not_special:
  assumes "c \<in> set allowed_list"
  shows "c \<noteq> delimiter" "c \<noteq> enclosure" "c \<noteq> escape_char" "c \<noteq> LF" "c \<noteq> CR"
    "c \<noteq> CHR 0x09" "c \<noteq> CHR 0x20" "\<not> isspace c"
  using assms
  by (auto simp: allowed_list_def LOWALPHA_def HIALPHA_def DIGIT_def delimiter_def
      enclosure_def escape_char_def LF_def CR_def isspace_def)

lemma plain_normalize_email: "plain (normalize_email raw)"
  by (simp add: plain_def normalize_email_def filter_sanitize_email_def list_all_iff)

lemma plain_no_enclosure: "plain em \<Longrightarrow> \<not> needs_enclosure em"
  using allowed_not_special
  by (auto simp: plain_def needs_enclosure_def list_all_iff list_ex_iff)

lemma csv_field_plain: "plain em \<Longrightarrow> csv_field em = em"
  by (simp add: csv_field_def plain_no_enclosure)

lemma fputcsv_plain_first:
  "plain em \<Longrightarrow> fputcsv (em # g # fs) = em @ delimiter # csv_join (g # fs) @ [LF]"
  by (simp add: fputcsv_def csv_field_plain)

lemma split_eol_no_LF:
  "LF \<notin> set xs \<Longrightarrow> split_eol cur (xs @ ys) = split_eol (cur @ xs) ys"
  by (induction xs arbitrary: cur) auto

lemma split_eol_line:
  "LF \<notin> set xs \<Longrightarrow> split_eol cur (xs @ LF # ys) = (cur @ xs @ [LF]) # split_eol [] ys"
  by (simp add: split_eol_no_LF)

lemma split_eol_append:
  "split_eol cur (a @ LF # b) = split_eol cur (a @ [LF]) @ split_eol [] b"
  by (induction a arbitrary: cur) auto

lemma php_file_append:
  assumes "ends_with_eol a"
  shows "php_file (a @ b) = php_file a @ php_file b"
proof (cases "a = []")
  case True
  then show ?thesis by (simp add: php_file_def)
next
  case False
  with assms have "a = butlast a @ [LF]"
    by (metis ends_with_eol_def append_butlast_last_id)
  then obtain a' where a: "a = a' @ [LF]" ..
  show ?thesis
    unfolding php_file_def a using split_eol_append [of "[]" a' b] by simp
qed

lemma strip_eol_LF:
  "strip_eol (xs @ [LF]) = (if xs \<noteq> [] \<and> last xs = CR then butlast xs else xs)"
  by (cases xs rule: rev_cases) (auto simp: strip_eol_def LF_def CR_def)

lemma strip_eol_plain: "plain em \<Longrightarrow> strip_eol em = em"
  using allowed_not_special(4,5)
  by (cases em rule: rev_cases) (auto simp: strip_eol_def plain_def)


lemma takeWhile_plain_delimiter:
  "plain em \<Longrightarrow> takeWhile (\<lambda>c. c \<noteq> delimiter) (em @ delimiter # m) = em"
  using allowed_not_special(1) by (simp add: plain_def list_all_iff)

lemma first_column_plain:
  assumes "plain em" and "strip_eol line = em @ delimiter # m"
  shows "str_getcsv0 enc line = Some em"
proof (cases em)
  case Nil
  have "delimiter \<noteq> enclosure" by (simp add: delimiter_def enclosure_def)
  with Nil assms(2) show ?thesis
    by (simp add: str_getcsv0_def strip_eol_def)
next
  case (Cons c cs)
  with assms(1) have c: "c \<in> set allowed_list" by (simp add: plain_def)
  have "\<not> isspace c" "c \<noteq> enclosure" using allowed_not_special [OF c] by simp_all
  moreover have "takeWhile (\<lambda>c. c \<noteq> delimiter) (strip_eol line) = em"
    using assms takeWhile_plain_delimiter by simp
  ultimately show ?thesis
    using assms Cons by (simp add: str_getcsv0_def strip_eol_plain)
qed

lemma strip_eol_row_line:
  "\<exists>m'. strip_eol (em @ delimiter # m @ [LF]) = em @ delimiter # m'"
proof (cases "m \<noteq> [] \<and> last m = CR")
  case True
  then have "strip_eol ((em @ delimiter # m) @ [LF]) = butlast (em @ delimiter # m)"
    by (simp only: strip_eol_LF) simp
  also have "\<dots> = em @ delimiter # butlast m"
    using True by (simp add: butlast_append)
  finally show ?thesis by auto
next
  case False
  have "delimiter \<noteq> CR" by (simp add: delimiter_def CR_def)
  with False have "last (em @ delimiter # m) \<noteq> CR" by auto
  then have "strip_eol ((em @ delimiter # m) @ [LF]) = em @ delimiter # m"
    by (simp only: strip_eol_LF) simp
  then show ?thesis by auto
qed

lemma str_getcsv0_row_line:
  assumes "plain em"
  shows "str_getcsv0 enc (em @ delimiter # m @ [LF]) = Some em"
  using strip_eol_row_line [of em m] first_column_plain [OF assms] by blast

lemma php_file_first_line:
  assumes "LF \<notin> set x"
  shows "\<exists>m more. php_file (x @ t @ [LF]) = (x @ m @ [LF]) # more"
proof -
  have "LF \<in> set (t @ [LF])" by simp
  then obtain ys zs where split: "t @ [LF] = ys @ LF # zs" and "LF \<notin> set ys"
    by (meson split_list_first)
  then have "LF \<notin> set (x @ ys)" using assms by simp
  then have "split_eol [] ((x @ ys) @ LF # zs) = ([] @ (x @ ys) @ [LF]) # split_eol [] zs"
    by (rule split_eol_line)
  then show ?thesis unfolding php_file_def using split by (metis append.assoc append_Nil)
qed

lemma email_exists_append:
  "ends_with_eol a \<Longrightarrow> email_exists p em (a @ b) = (email_exists p em a \<or> email_exists p em b)"
  by (auto simp: email_exists_def existingEmails_def php_file_append list_ex_iff)

lemma plain_no_LF: "plain em \<Longrightarrow> LF \<notin> set em"
  using allowed_not_special(4) by (auto simp: plain_def list_all_iff)

lemma email_exists_own_row:
  assumes "plain em"
  shows "email_exists p em (fputcsv (em # g # fs))"
proof -
  have "delimiter \<noteq> LF" by (simp add: delimiter_def LF_def)
  then have "LF \<notin> set (em @ [delimiter])" using plain_no_LF [OF assms] by simp
  from php_file_first_line [OF this, of "csv_join (g # fs)"]
  obtain m more where
    "php_file (em @ delimiter # csv_join (g # fs) @ [LF]) = (em @ delimiter # m @ [LF]) # more"
    by auto
  then show ?thesis
    using assms by (simp add: email_exists_def existingEmails_def fputcsv_plain_first
        str_getcsv0_row_line)
qed

subsection \<open>The header row\<close>

lemma length_header: "length (fputcsv csv_header) = 45"
  by (simp add: fputcsv_def csv_header_def csv_field_def needs_enclosure_def delimiter_def
      enclosure_def escape_char_def LF_def CR_def)

lemma header_ends: "ends_with_eol (fputcsv csv_header)"
  by (simp add: ends_with_eol_def fputcsv_def)

lemma fputcsv_ends: "ends_with_eol (fputcsv row)"
  by (simp add: ends_with_eol_def fputcsv_def)

lemma ends_with_eol_append: "ends_with_eol b \<Longrightarrow> b \<noteq> [] \<Longrightarrow> ends_with_eol (a @ b)"
  by (simp add: ends_with_eol_def)

lemma fputcsv_nonempty: "fputcsv row \<noteq> []"
  by (simp add: fputcsv_def)

lemma php_file_header:
  "php_file (fputcsv csv_header) = [fputcsv csv_header]"
proof -
  have "LF \<notin> set (csv_join csv_header)"
    by (simp add: csv_header_def csv_field_def needs_enclosure_def delimiter_def
      enclosure_def escape_char_def LF_def CR_def)
  from split_eol_line [OF this, of "[]" "[]"] show ?thesis
    by (simp add: php_file_def fputcsv_def)
qed

lemma first_column_header: "str_getcsv0 enc (fputcsv csv_header) = Some ''email''"
proof -
  have "plain ''email''" by (simp add: plain_def allowed_list_def LOWALPHA_def)
  moreover have "fputcsv csv_header = ''email'' @ delimiter # csv_join (tl csv_header) @ [LF]"
    by (simp add: fputcsv_def csv_header_def csv_field_def needs_enclosure_def delimiter_def
      enclosure_def escape_char_def LF_def CR_def)
  ultimately show ?thesis using str_getcsv0_row_line by metis
qed

lemma email_exists_header:
  "email_exists p em (fputcsv csv_header) = (em = ''email'')"
  by (auto simp: email_exists_def existingEmails_def php_file_header first_column_header)

section \<open>The paths through the script\<close>

lemma waitlist_php_post:
  assumes "request_method rq = ''POST''" "input rq = Some inp" "email_arg inp = Some raw"
  shows "waitlist_php p rq led =
     (if validate_email p (normalize_email raw)
      then store_signup p rq inp (normalize_email raw) led
      else (\<lparr>status = 400, body = Some (failure ''Invalid email format'')\<rparr>, led, []))"
  using assms by (auto simp: waitlist_php_def email_arg_def Let_def split: option.splits)

lemma append_signup_ok:
  assumes "fopen_ok p" "fputcsv_ok p"
  shows "append_signup p rq inp em led =
     (\<lparr>status = 200,
       body = Some \<lparr>success = True, message = welcome_message, alreadyExists = None,
         waitlistPosition = Some (waitlistCount (Some
           ((case led of None \<Rightarrow> fputcsv csv_header
             | Some c \<Rightarrow> if c = [] then fputcsv csv_header else c)
            @ fputcsv (csvRow p rq inp em)))),
         timestamp = Some (date_now p), demoMode = None\<rparr>\<rparr>,
      Some ((case led of None \<Rightarrow> fputcsv csv_header
             | Some c \<Rightarrow> if c = [] then fputcsv csv_header else c)
            @ fputcsv (csvRow p rq inp em)),
      [''Waitlist signup: '' @ em @ '' from '' @ ipAddress p rq])"
  using assms by (simp add: append_signup_def Let_def split: option.splits)

lemma store_signup_fresh:
  assumes "led = None \<or> (\<exists>c. led = Some c \<and> \<not> email_exists p em c \<and> length c \<le> maxFileSize)"
  shows "store_signup p rq inp em led = append_signup p rq inp em led"
  using assms by (auto simp: store_signup_def)

lemma accepted_append_signup:
  "accepted (append_signup p rq inp em led) \<Longrightarrow> fopen_ok p \<and> fputcsv_ok p"
  by (auto simp: append_signup_def accepted_def reply_def failure_def Let_def split: if_splits)

lemma accepted_store_signup:
  assumes "accepted (store_signup p rq inp em led)"
  shows "fopen_ok p \<and> fputcsv_ok p \<and>
    (led = None \<or> (\<exists>c. led = Some c \<and> \<not> email_exists p em c \<and> length c \<le> maxFileSize))"
proof (cases led)
  case None
  with assms show ?thesis using accepted_append_signup by (simp add: store_signup_def)
next
  case (Some c)
  with assms have 1: "\<not> email_exists p em c" and 2: "length c \<le> maxFileSize"
    by (auto simp: store_signup_def accepted_def reply_def failure_def split: if_splits)
  with assms Some have "accepted (append_signup p rq inp em led)"
    by (simp add: store_signup_def)
  with 1 2 Some show ?thesis using accepted_append_signup by blast
qed

lemma accepted_request:
  assumes "accepted (waitlist_php p rq led)"
  shows "\<exists>inp raw. request_method rq = ''POST'' \<and> input rq = Some inp \<and> email_arg inp = Some raw \<and>
     validate_email p (normalize_email raw) \<and>
     accepted (store_signup p rq inp (normalize_email raw) led) \<and>
     waitlist_php p rq led = store_signup p rq inp (normalize_email raw) led"
proof -
  from assms have post: "request_method rq = ''POST''"
    by (auto simp: waitlist_php_def accepted_def reply_def failure_def split: if_splits)
  from assms post obtain inp where inp: "input rq = Some inp"
    by (cases "input rq") (auto simp: waitlist_php_def accepted_def reply_def failure_def)
  from assms post inp obtain raw where raw: "email_arg inp = Some raw"
    by (cases "email_arg inp")
       (auto simp: waitlist_php_def accepted_def reply_def failure_def email_arg_def
          split: option.splits)
  from assms have "validate_email p (normalize_email raw)"
    by (auto simp: waitlist_php_post [OF post inp raw] accepted_def reply_def failure_def
        split: if_splits)
  with assms post inp raw show ?thesis
    by (simp add: waitlist_php_post [OF post inp raw])
qed

subsection \<open>Ledgers near the size bound\<close>

lemma strip_eol_id:
  "s = [] \<or> (last s \<noteq> LF \<and> last s \<noteq> CR) \<Longrightarrow> strip_eol s = s"
  by (cases s rule: rev_cases) (auto simp: strip_eol_def)

lemma length_filler: "length (filler k) = k + 1"
  by (simp add: filler_def)

lemma filler_ends: "ends_with_eol (filler k)"
  by (simp add: filler_def ends_with_eol_def)

lemma php_file_filler: "php_file (filler k) = [filler k]"
proof -
  have "LF \<notin> set (replicate k (CHR ''x''))" by (simp add: LF_def)
  from split_eol_line [OF this, of "[]" "[]"] show ?thesis
    by (simp add: php_file_def filler_def)
qed

lemma first_column_filler:
  assumes "0 < k"
  shows "str_getcsv0 enc (filler k) = Some (replicate k (CHR ''x''))"
proof -
  from assms obtain n where k: "k = Suc n" by (cases k) auto
  have last: "last (replicate k (CHR ''x'')) = CHR ''x''" using assms by simp
  have strip: "strip_eol (filler k) = replicate k (CHR ''x'')"
    unfolding filler_def strip_eol_LF using last by (simp add: CR_def)
  have strip2: "strip_eol (replicate k (CHR ''x'')) = replicate k (CHR ''x'')"
    using last by (intro strip_eol_id) (simp add: LF_def CR_def)
  have tw: "takeWhile (\<lambda>c. c \<noteq> delimiter) (replicate k (CHR ''x'')) = replicate k (CHR ''x'')"
    by (simp add: delimiter_def)
  show ?thesis
    unfolding str_getcsv0_def strip Let_def tw strip2
    by (simp add: k isspace_def enclosure_def)
qed

lemma email_exists_filler:
  assumes "length em < k"
  shows "\<not> email_exists p em (filler k)"
proof -
  have "em \<noteq> replicate k (CHR ''x'')" using assms by auto
  moreover have "0 < k" using assms by simp
  ultimately show ?thesis
    by (simp add: email_exists_def existingEmails_def php_file_filler first_column_filler)
qed

subsection \<open>The concrete submission\<close>

lemma submitted_emailD:
  "submitted_email rq = Some raw \<Longrightarrow> \<exists>inp. input rq = Some inp \<and> email_arg inp = Some raw"
  by (auto simp: submitted_email_def split: option.splits)

lemma email_arg_string [simp]:
  "email_arg \<lparr>email = Some (JString raw), source = src\<rparr> = Some raw"
  by (simp add: email_arg_def scalar_text_def)

lemma post_simps:
  "request_method (post raw) = ''POST''"
  "submitted_email (post raw) = Some raw"
  "input (post raw) =
     Some \<lparr>email = Some (JString raw), source = Some (JString ''landing_page'')\<rparr>"
  by (simp_all add: post_def submitted_email_def)

lemma address_203:
  "(case explode delimiter ''203.0.113.7'' of x # _ \<Rightarrow> x | [] \<Rightarrow> []) = ''203.0.113.7''"
  "trim ''203.0.113.7'' = ''203.0.113.7''"
  "validate_ip php0 ''203.0.113.7''"
  by code_simp+

lemma ipAddress_post: "ipAddress php0 (post raw) = ''203.0.113.7''"
  by (simp add: ipAddress_def post_def address_203)

lemma user_valid: "validate_email php0 (normalize_email ''user@example.com'')"
  by code_simp

lemma user_normal: "normalize_email ''user@example.com'' = ''user@example.com''"
  by code_simp

lemma user_plain: "plain ''user@example.com''"
  using plain_normalize_email [of "''user@example.com''"] by (simp only: user_normal)

lemma csvRow_post:
  "csvRow php0 (post raw)
     \<lparr>email = Some (JString raw), source = Some (JString ''landing_page'')\<rparr> em =
     [em, ''2024-01-15 10:30:00'', ''landing_page'', ''203.0.113.7'', ''Mozilla/5.0'']"
  by (simp add: csvRow_def ipAddress_post csv_text_def scalar_text_def substr0_def)
     (simp add: php0_def post_def)

subsection \<open>Rows, lines and the accepted outcome\<close>

lemma explode_acc_first:
  "(case explode_acc sep cur s of x # _ \<Rightarrow> x | [] \<Rightarrow> []) = cur @ takeWhile (\<lambda>c. c \<noteq> sep) s"
  by (induction s arbitrary: cur) auto

lemma explode_first:
  "(case explode sep s of x # _ \<Rightarrow> x | [] \<Rightarrow> []) = takeWhile (\<lambda>c. c \<noteq> sep) s"
  using explode_acc_first [of sep "[]" s] by (simp add: explode_def)

lemma enclose_chars_set: "set (enclose_chars e f) \<subseteq> insert enclosure (set f)"
  by (induction f arbitrary: e) auto

lemma LF_notin_csv_field: "LF \<notin> set f \<Longrightarrow> LF \<notin> set (csv_field f)"
  using enclose_chars_set [of False f]
  by (auto simp: csv_field_def enclosure_def LF_def)

lemma LF_notin_csv_join: "single_line row \<Longrightarrow> LF \<notin> set (csv_join row)"
proof (induction row rule: csv_join.induct)
  case 1
  then show ?case by simp
next
  case (2 f)
  then show ?case by (simp add: single_line_def LF_notin_csv_field)
next
  case (3 f g fs)
  have "delimiter \<noteq> LF" by (simp add: delimiter_def LF_def)
  with 3 show ?case by (simp add: single_line_def LF_notin_csv_field)
qed

lemma php_file_single_row:
  assumes "single_line row"
  shows "php_file (fputcsv row) = [fputcsv row]"
  using split_eol_line [OF LF_notin_csv_join [OF assms], of "[]" "[]"]
  by (simp add: php_file_def fputcsv_def)

lemma single_line_plain: "plain em \<Longrightarrow> single_line (g # fs) \<Longrightarrow> single_line (em # g # fs)"
  by (simp add: single_line_def plain_no_LF)

lemma email_exists_single_row:
  assumes "plain em'" and "single_line (g # fs)"
  shows "email_exists p em (fputcsv (em' # g # fs)) = (em = em')"
proof -
  have "php_file (fputcsv (em' # g # fs)) = [fputcsv (em' # g # fs)]"
    using assms by (intro php_file_single_row single_line_plain)
  moreover have "str_getcsv0 enc (fputcsv (em' # g # fs)) = Some em'" for enc
    using assms(1) by (simp add: fputcsv_plain_first str_getcsv0_row_line)
  ultimately show ?thesis
    by (auto simp: email_exists_def existingEmails_def)
qed

lemma chop_eol_LF:
  "l \<noteq> [] \<Longrightarrow> l \<noteq> [CR] \<Longrightarrow> chop_eol (l @ [LF]) \<noteq> None"
  by (cases l rule: rev_cases) (auto simp: chop_eol_def split: list.splits)

lemma chop_eol_row: "chop_eol (fputcsv (f # g # fs)) \<noteq> None"
proof -
  have mem: "delimiter \<in> set (csv_join (f # g # fs))" by simp
  have ne: "delimiter \<noteq> CR" by (simp add: delimiter_def CR_def)
  have "csv_join (f # g # fs) \<noteq> []" using mem by force
  moreover have "csv_join (f # g # fs) \<noteq> [CR]"
  proof
    assume "csv_join (f # g # fs) = [CR]"
    with mem have "delimiter \<in> set [CR]" by metis
    with ne show False by simp
  qed
  ultimately show ?thesis unfolding fputcsv_def by (rule chop_eol_LF)
qed

lemma count_single_row:
  assumes "single_line (f # g # fs)"
  shows "length (php_file_skip_empty (fputcsv (f # g # fs))) = 1"
  using chop_eol_row [of f g fs]
  by (auto simp: php_file_skip_empty_def php_file_single_row [OF assms] List.map_filter_def)

lemma skip_empty_append:
  "ends_with_eol a \<Longrightarrow>
   php_file_skip_empty (a @ b) = php_file_skip_empty a @ php_file_skip_empty b"
  by (simp add: php_file_skip_empty_def php_file_append List.map_filter_def)

lemma single_line_header: "single_line csv_header"
  by (simp add: single_line_def csv_header_def LF_def)

lemma count_header: "length (php_file_skip_empty (fputcsv csv_header)) = 1"
  using count_single_row single_line_header unfolding csv_header_def by blast

lemma well_formed_content:
  assumes "well_formed (Some c)" and "c \<noteq> []"
  shows "ends_with_eol c" and "1 \<le> length (php_file_skip_empty c)"
proof -
  from assms have pre: "take (length (fputcsv csv_header)) c = fputcsv csv_header"
    and "last c = LF" by (auto simp: well_formed_def)
  then show "ends_with_eol c" by (simp add: ends_with_eol_def)
  have "c = fputcsv csv_header @ drop (length (fputcsv csv_header)) c"
    using pre by (metis append_take_drop_id)
  then have "php_file_skip_empty c =
      php_file_skip_empty (fputcsv csv_header) @
      php_file_skip_empty (drop (length (fputcsv csv_header)) c)"
    using skip_empty_append [OF header_ends] by metis
  then show "1 \<le> length (php_file_skip_empty c)"
    using count_header by simp
qed

lemma csvRow_shape:
  "\<exists>g fs. csvRow p rq inp em = em # g # fs"
  by (simp add: csvRow_def)

lemma before_row_ends: "well_formed led \<Longrightarrow> ends_with_eol (before_row led)"
  using well_formed_content(1) header_ends
  by (auto simp: before_row_def split: option.splits)

lemma accepted_outcome:
  assumes "accepted (waitlist_php p rq led)"
  shows "\<exists>inp raw. request_method rq = ''POST'' \<and> input rq = Some inp \<and> email_arg inp = Some raw \<and>
     validate_email p (normalize_email raw) \<and>
     (led = None \<or>
      (\<exists>c. led = Some c \<and> \<not> email_exists p (normalize_email raw) c \<and> length c \<le> maxFileSize)) \<and>
     waitlist_php p rq led =
       (\<lparr>status = 200,
         body = Some \<lparr>success = True, message = welcome_message, alreadyExists = None,
           waitlistPosition = Some (waitlistCount (Some
             (before_row led @ fputcsv (csvRow p rq inp (normalize_email raw))))),
           timestamp = Some (date_now p), demoMode = None\<rparr>\<rparr>,
        Some (before_row led @ fputcsv (csvRow p rq inp (normalize_email raw))),
        [''Waitlist signup: '' @ normalize_email raw @ '' from '' @ ipAddress p rq])"
proof -
  from accepted_request [OF assms] obtain inp raw where
    r: "request_method rq = ''POST''" "input rq = Some inp" "email_arg inp = Some raw"
      "validate_email p (normalize_email raw)"
      "accepted (store_signup p rq inp (normalize_email raw) led)"
      "waitlist_php p rq led = store_signup p rq inp (normalize_email raw) led"
    by blast
  from accepted_store_signup [OF r(5)] have
    ok: "fopen_ok p" "fputcsv_ok p" and
    fresh: "led = None \<or>
      (\<exists>c. led = Some c \<and> \<not> email_exists p (normalize_email raw) c \<and> length c \<le> maxFileSize)"
    by blast+
  show ?thesis
    using r(1-4) fresh
    by (auto simp: r(6) store_signup_fresh [OF fresh] append_signup_ok [OF ok] before_row_def)
qed

subsection \<open>An invariant of the ledger\<close>

text \<open>Whatever the request and the runtime, a run of the script leaves a well-formed
  ledger well formed; the absent ledger is well formed. So every ledger that only the
  script has written is well formed.\<close>

lemma ledger_after_cases:
  "ledger_after (waitlist_php p rq led) = led \<or>
   ledger_after (waitlist_php p rq led) = Some (case led of None \<Rightarrow> [] | Some c \<Rightarrow> c) \<or>
   (\<exists>row. ledger_after (waitlist_php p rq led) = Some (before_row led @ fputcsv row))"
  by (auto simp: waitlist_php_def store_signup_def append_signup_def ledger_after_def
      before_row_def Let_def split: option.splits)

lemma well_formed_row:
  assumes "well_formed led"
  shows "well_formed (Some (before_row led @ fputcsv row))"
proof -
  have last: "last (before_row led @ fputcsv row) = LF" by (simp add: fputcsv_def)
  have pre: "take (length (fputcsv csv_header)) (before_row led) = fputcsv csv_header"
    using assms by (auto simp: before_row_def well_formed_def split: option.splits)
  have "length (take (length (fputcsv csv_header)) (before_row led)) =
      length (fputcsv csv_header)"
    by (simp only: pre)
  then have "length (fputcsv csv_header) \<le> length (before_row led)" by simp
  with pre have "take (length (fputcsv csv_header)) (before_row led @ fputcsv row) =
      fputcsv csv_header" by simp
  with last show ?thesis by (simp add: well_formed_def)
qed

lemma well_formed_created:
  "well_formed led \<Longrightarrow> well_formed (Some (case led of None \<Rightarrow> [] | Some c \<Rightarrow> c))"
  by (simp add: well_formed_def split: option.splits)

lemma well_formed_preserved:
  assumes "well_formed led"
  shows "well_formed (ledger_after (waitlist_php p rq led))"
  using ledger_after_cases [of p rq led] assms well_formed_row [OF assms]
    well_formed_created [OF assms]
  by metis

section \<open>Claims about the request gate\<close>

text \<open>Claim C6. A request whose method is not POST gets status 405 with the failure
  object ``Method not allowed'', except OPTIONS, which gets status 200 and no body. In both
  cases the ledger is returned as it was, nothing is logged, and the response is the same
  for every ledger, so the ledger is neither written nor read.\<close>

theorem non_post_rejected:
  assumes "request_method rq \<noteq> ''POST''"
  shows "waitlist_php p rq led =
           ((if request_method rq = ''OPTIONS'' then \<lparr>status = 200, body = None\<rparr>
             else \<lparr>status = 405,
                    body = Some \<lparr>success = False, message = ''Method not allowed'',
                      alreadyExists = None, waitlistPosition = None, timestamp = None,
                      demoMode = None\<rparr>\<rparr>),
            led, []) \<and>
         fst (waitlist_php p rq led) = fst (waitlist_php p rq led')"
  using assms by (simp add: waitlist_php_def failure_def)

theorem non_post_rejected_witness:
  "''GET'' \<noteq> ''POST'' \<and> ''OPTIONS'' \<noteq> ''POST'' \<and>
   status (fst (waitlist_php php0 ((post ''user@example.com'')\<lparr>request_method := ''GET''\<rparr>)
     (Some ledger_over_bound))) = 405 \<and>
   ledger_after (waitlist_php php0 ((post ''user@example.com'')\<lparr>request_method := ''GET''\<rparr>)
     (Some ledger_over_bound)) = Some ledger_over_bound \<and>
   waitlist_php php0 ((post ''user@example.com'')\<lparr>request_method := ''OPTIONS''\<rparr>) None =
     (\<lparr>status = 200, body = None\<rparr>, None, [])"
  using non_post_rejected [of "(post ''user@example.com'')\<lparr>request_method := ''GET''\<rparr>" php0
      "Some ledger_over_bound" None]
    non_post_rejected [of "(post ''user@example.com'')\<lparr>request_method := ''OPTIONS''\<rparr>" php0
      None None]
  by (simp add: post_def ledger_after_def)

text \<open>What line 30 and lines 36--43 do with a POST request whose email is not set, or is a
  scalar whose trimmed and sanitized text fails validation: status 400 with
  \<open>success = false\<close>, the ledger returned as it was, nothing logged.\<close>

lemma scalar_email_rejected:
  assumes "request_method rq = ''POST''"
    and "case input rq of
           None \<Rightarrow> True
         | Some inp \<Rightarrow>
             (case email inp of
                None \<Rightarrow> True
              | Some v \<Rightarrow>
                  (case scalar_text v of
                     None \<Rightarrow> False
                   | Some raw \<Rightarrow> \<not> validate_email p (normalize_email raw)))"
  shows "waitlist_php p rq led =
           (\<lparr>status = 400,
             body = Some \<lparr>success = False,
               message = (if submitted_email rq = None then ''Email is required''
                          else ''Invalid email format''),
               alreadyExists = None, waitlistPosition = None, timestamp = None,
               demoMode = None\<rparr>\<rparr>,
            led, [])"
  using assms
  by (auto simp: waitlist_php_def submitted_email_def email_arg_def failure_def Let_def
      split: option.splits)

lemma array_email_fatal:
  assumes "request_method rq = ''POST''" and "input rq = Some inp" and "email inp = Some JArray"
  shows "waitlist_php p rq led = (\<lparr>status = 500, body = None\<rparr>, led, [])"
  using assms by (simp add: waitlist_php_def scalar_text_def)

lemma not_an_email_invalid: "\<not> plain_address (normalize_email ''not-an-email'')"
  by code_simp

text \<open>Claim C5. A POST request whose email field is a JSON array passes \<open>isset\<close> at line 30
  and reaches \<open>trim\<close> at line 36, outside the \<open>try\<close> block: the run ends with status 500 and
  no body, not with status 400 and \<open>success = false\<close> as for the malformed string
  \<open>not-an-email\<close>. In both runs the ledger stays absent.\<close>

theorem array_email_uncaught:
  "waitlist_php php0 post_array None = (\<lparr>status = 500, body = None\<rparr>, None, []) \<and>
   waitlist_php php0 (post ''not-an-email'') None =
     (\<lparr>status = 400,
       body = Some \<lparr>success = False, message = ''Invalid email format'',
         alreadyExists = None, waitlistPosition = None, timestamp = None,
         demoMode = None\<rparr>\<rparr>,
      None, [])"
proof -
  have "waitlist_php php0 post_array None = (\<lparr>status = 500, body = None\<rparr>, None, [])"
    by (rule array_email_fatal [where inp = "\<lparr>email = Some JArray, source = None\<rparr>"])
       (simp_all add: post_array_def post_def)
  moreover have "waitlist_php php0 (post ''not-an-email'') None =
     (\<lparr>status = 400,
       body = Some \<lparr>success = False, message = ''Invalid email format'',
         alreadyExists = None, waitlistPosition = None, timestamp = None,
         demoMode = None\<rparr>\<rparr>,
      None, [])"
    using scalar_email_rejected [of "post ''not-an-email''" php0 None] not_an_email_invalid
    by (simp add: post_def php0_def submitted_email_def scalar_text_def)
  ultimately show ?thesis by blast
qed

section \<open>Claims about the widget\<close>

text \<open>Claim C9. When the server answers with a status outside 200--299 (a 400 rejection or
  a 500 fault alike), \<open>submitToWaitlist\<close> gives the result of the local simulation, whose
  \<open>success\<close> is true; the result is the one an unreachable endpoint would have given, so
  the server's failure is never visible to the caller.\<close>

theorem server_rejection_hidden:
  assumes "fetched b = HttpResponse st js" and "\<not> response_ok st"
  shows "success (fst (submitToWaitlist b em ls)) \<and>
         submitToWaitlist b em ls = demo_simulation b em ls \<and>
         submitToWaitlist b em ls = submitToWaitlist (b\<lparr>fetched := NetworkError\<rparr>) em ls"
  using assms by (simp add: submitToWaitlist_def demo_simulation_def Let_def)

theorem server_rejection_hidden_witness:
  "\<not> response_ok 400 \<and> \<not> response_ok 500 \<and>
   success (fst (submitToWaitlist
     (browser_with (HttpResponse 400 (Some (failure ''Invalid email format''))))
     ''not-an-email'' (stored_emails []))) \<and>
   success (fst (submitToWaitlist
     (browser_with (HttpResponse 500 (Some (failure ''Service temporarily unavailable''))))
     ''user@example.com'' (stored_emails [])))"
proof -
  have h4: "\<not> response_ok 400" and h5: "\<not> response_ok 500"
    by (simp_all add: response_ok_def)
  have f4: "fetched (browser_with (HttpResponse 400 js)) = HttpResponse 400 js"
    and f5: "fetched (browser_with (HttpResponse 500 js)) = HttpResponse 500 js" for js
    by (simp_all add: browser_with_def)
  show ?thesis
    using server_rejection_hidden [OF f4 h4] server_rejection_hidden [OF f5 h5] h4 h5
    by blast
qed

text \<open>Claim C8. With the endpoint unreachable, an email already in the local list gets a
  result without the \<open>demoMode\<close> flag, whereas a new email gets \<open>demoMode = true\<close>: the
  already-registered path of the simulation is not flagged as simulated.\<close>

theorem demo_duplicate_not_flagged:
  "demoMode (fst (submitToWaitlist (browser_with NetworkError) ''user@example.com''
     (stored_emails [''user@example.com'']))) = None \<and>
   demoMode (fst (submitToWaitlist (browser_with NetworkError) ''user@example.com''
     (stored_emails []))) = Some True"
  by (simp add: submitToWaitlist_def demo_simulation_def browser_with_def stored_emails_def)

section \<open>Claims about the stored ledger\<close>

text \<open>Claim C10. A POST submission whose normalized email is the first column of some line
  of the ledger is answered with status 200, \<open>success = true\<close> and \<open>alreadyExists = true\<close>,
  without \<open>waitlistPosition\<close> or \<open>timestamp\<close>; the ledger is returned as it was and
  nothing is logged. The size of the ledger plays no part, so the answer is the same for a
  ledger larger than 10 MiB.\<close>

theorem duplicate_skips_size_check:
  assumes "request_method rq = ''POST''" and "submitted_email rq = Some raw"
    and "validate_email p (normalize_email raw)"
    and "email_exists p (normalize_email raw) c"
  shows "waitlist_php p rq (Some c) =
           (\<lparr>status = 200,
             body = Some \<lparr>success = True, message = already_message,
               alreadyExists = Some True, waitlistPosition = None, timestamp = None,
               demoMode = None\<rparr>\<rparr>,
            Some c, [])"
proof -
  from assms(2) obtain inp where "input rq = Some inp" "email_arg inp = Some raw"
    using submitted_emailD by blast
  then show ?thesis
    using assms by (simp add: waitlist_php_post store_signup_def)
qed

theorem duplicate_skips_size_check_witness:
  "maxFileSize < length ledger_over_bound_with_user \<and>
   email_exists php0 (normalize_email ''user@example.com'') ledger_over_bound_with_user \<and>
   waitlist_php php0 (post ''user@example.com'') (Some ledger_over_bound_with_user) =
     (\<lparr>status = 200,
       body = Some \<lparr>success = True, message = already_message,
         alreadyExists = Some True, waitlistPosition = None, timestamp = None,
         demoMode = None\<rparr>\<rparr>,
      Some ledger_over_bound_with_user, [])"
proof -
  have size: "maxFileSize < length ledger_over_bound_with_user"
    by (simp add: ledger_over_bound_with_user_def length_filler length_header maxFileSize_def)
  have "email_exists php0 ''user@example.com''
      (fputcsv [''user@example.com'', ''2024-01-15 10:30:00'', ''landing_page'',
         ''203.0.113.7'', ''Mozilla/5.0''] @ filler 10485715)"
    using email_exists_own_row [OF user_plain] by (simp add: email_exists_append fputcsv_ends)
  then have ex: "email_exists php0 (normalize_email ''user@example.com'')
      ledger_over_bound_with_user"
    unfolding ledger_over_bound_with_user_def user_normal
    by (simp add: email_exists_append header_ends)
  show ?thesis
    using duplicate_skips_size_check [OF post_simps(1) post_simps(2) user_valid ex] size ex
    by blast
qed


lemma user_not_in_filled:
  assumes "100 < k"
  shows "\<not> email_exists php0 (normalize_email ''user@example.com'')
    (fputcsv csv_header @ filler k)"
proof -
  have "length ''user@example.com'' < k" using assms by simp
  then show ?thesis
    unfolding user_normal
    by (simp add: email_exists_append header_ends email_exists_header email_exists_filler)
qed



section \<open>Claims about accepted submissions\<close>

lemma accepted_fresh:
  assumes "request_method rq = ''POST''" "input rq = Some inp" "email_arg inp = Some raw"
    and "validate_email p (normalize_email raw)" and "fopen_ok p" "fputcsv_ok p"
    and "led = None \<or>
      (\<exists>c. led = Some c \<and> \<not> email_exists p (normalize_email raw) c \<and> length c \<le> maxFileSize)"
  shows "waitlist_php p rq led =
       (\<lparr>status = 200,
         body = Some \<lparr>success = True, message = welcome_message, alreadyExists = None,
           waitlistPosition = Some (waitlistCount (Some
             (before_row led @ fputcsv (csvRow p rq inp (normalize_email raw))))),
           timestamp = Some (date_now p), demoMode = None\<rparr>\<rparr>,
        Some (before_row led @ fputcsv (csvRow p rq inp (normalize_email raw))),
        [''Waitlist signup: '' @ normalize_email raw @ '' from '' @ ipAddress p rq])"
  using assms(4)
  by (simp add: waitlist_php_post [OF assms(1-3)] store_signup_fresh [OF assms(7)]
      append_signup_ok [OF assms(5,6)] before_row_def)

lemma php0_ok: "fopen_ok php0" "fputcsv_ok php0" "date_now php0 = ''2024-01-15 10:30:00''"
  by (simp_all add: php0_def)

lemma count_after_row:
  assumes "well_formed led" and "single_line (f # g # fs)"
  shows "waitlistCount (Some (before_row led @ fputcsv (f # g # fs))) = 1 + waitlistCount led"
proof -
  have row: "length (php_file_skip_empty (fputcsv (f # g # fs))) = 1"
    using assms(2) by (rule count_single_row)
  consider "led = None \<or> led = Some []" | c where "led = Some c" "c \<noteq> []"
    by (cases led) auto
  then show ?thesis
  proof cases
    case 1
    then have "before_row led = fputcsv csv_header" and "waitlistCount led = 0"
      by (auto simp: before_row_def waitlistCount_def php_file_skip_empty_def php_file_def
          List.map_filter_def)
    then show ?thesis
      by (simp add: waitlistCount_def skip_empty_append [OF header_ends] count_header row)
  next
    case 2
    with assms(1) have e: "ends_with_eol c" and n: "1 \<le> length (php_file_skip_empty c)"
      using well_formed_content by blast+
    from 2 have "before_row led = c" by (simp add: before_row_def)
    then show ?thesis
      using n by (simp add: 2 waitlistCount_def skip_empty_append [OF e] row)
  qed
qed

subsection \<open>The records of a ledger\<close>

text \<open>Every row that \<open>fputcsv\<close> writes puts at least one non-empty line into the file,
  and exactly one when none of its fields contains a line feed.\<close>

lemma five_fields: "length r = 5 \<Longrightarrow> \<exists>f g fs. r = f # g # fs"
  by (cases r; cases "tl r") auto

lemma first_line_not_blank:
  "\<exists>x more. php_file (fputcsv (f # g # fs)) = (x @ [LF]) # more \<and> x \<noteq> [] \<and> x \<noteq> [CR]"
proof (cases "LF \<in> set (csv_field f)")
  case False
  have dl: "delimiter \<noteq> LF" "delimiter \<noteq> CR" by (simp_all add: delimiter_def LF_def CR_def)
  from False dl have "LF \<notin> set (csv_field f @ [delimiter])" by simp
  from php_file_first_line [OF this, of "csv_join (g # fs)"]
  obtain m more where
    "php_file (fputcsv (f # g # fs)) = ((csv_field f @ [delimiter]) @ m @ [LF]) # more"
    by (auto simp: fputcsv_def)
  moreover have "(csv_field f @ [delimiter]) @ m \<noteq> []" by simp
  moreover have "(csv_field f @ [delimiter]) @ m \<noteq> [CR]"
  proof
    assume "(csv_field f @ [delimiter]) @ m = [CR]"
    then have "delimiter \<in> set [CR]" by (metis in_set_conv_decomp append.assoc append_Cons append_Nil)
    with dl show False by simp
  qed
  ultimately show ?thesis by (metis append.assoc)
next
  case True
  have el: "enclosure \<noteq> LF" "enclosure \<noteq> CR" by (simp_all add: enclosure_def LF_def CR_def)
  from True have "LF \<in> set f" using LF_notin_csv_field [of f] by blast
  then have "needs_enclosure f" by (auto simp: needs_enclosure_def list_ex_iff)
  then have enc: "csv_field f = enclosure # enclose_chars False f @ [enclosure]"
    by (simp add: csv_field_def)
  from el have "LF \<notin> set [enclosure]" by simp
  from php_file_first_line [OF this, of "enclose_chars False f @ [enclosure] @ delimiter # csv_join (g # fs)"]
  obtain m more where
    "php_file (fputcsv (f # g # fs)) = ([enclosure] @ m @ [LF]) # more"
    by (auto simp: fputcsv_def enc)
  moreover have "[enclosure] @ m \<noteq> []" by simp
  moreover have "[enclosure] @ m \<noteq> [CR]" using el by auto
  ultimately show ?thesis by (metis append.assoc)
qed

lemma count_row_ge: "1 \<le> length (php_file_skip_empty (fputcsv (f # g # fs)))"
proof -
  from first_line_not_blank [of f g fs] obtain x more where
    l: "php_file (fputcsv (f # g # fs)) = (x @ [LF]) # more" and "x \<noteq> []" "x \<noteq> [CR]"
    by blast
  then have "chop_eol (x @ [LF]) \<noteq> None" by (intro chop_eol_LF)
  then show ?thesis
    by (auto simp: php_file_skip_empty_def l List.map_filter_def)
qed

lemma rows_end: "ends_with_eol (concat (map fputcsv rows))"
  by (induction rows rule: rev_induct)
     (simp_all add: ends_with_eol_def fputcsv_def)

lemma count_rows:
  assumes "list_all (\<lambda>r. length r = 5) rows"
  shows "length rows \<le> length (php_file_skip_empty (concat (map fputcsv rows)))"
    and "list_all single_line rows \<Longrightarrow>
      length (php_file_skip_empty (concat (map fputcsv rows))) = length rows"
  using assms
proof (induction rows)
  case Nil
  {
    case 1 show ?case by simp
  next
    case 2 show ?case by (simp add: php_file_skip_empty_def php_file_def List.map_filter_def)
  }
next
  case (Cons r rows)
  {
    case 1
    then obtain f g fs where r: "r = f # g # fs" using five_fields by fastforce
    from 1 have "length rows \<le> length (php_file_skip_empty (concat (map fputcsv rows)))"
      using Cons.IH(1) by simp
    then show ?case
      using count_row_ge [of f g fs]
      by (simp add: skip_empty_append [OF fputcsv_ends] r)
  next
    case 2
    then obtain f g fs where r: "r = f # g # fs" using five_fields by fastforce
    from 2 have "length (php_file_skip_empty (concat (map fputcsv rows))) = length rows"
      using Cons.IH(2) by simp
    moreover from 2 have "single_line (f # g # fs)" by (simp add: r)
    ultimately show ?case
      using count_single_row [of f g fs]
      by (simp add: skip_empty_append [OF fputcsv_ends] r)
  }
qed

lemma ledger_of_snoc: "ledger_of rows @ fputcsv row = ledger_of (rows @ [row])"
  by (simp add: ledger_of_def)

lemma before_row_holds: "holds led rows \<Longrightarrow> before_row led = ledger_of rows"
  by (auto simp: holds_def before_row_def ledger_of_def fputcsv_def split: option.splits)

lemma holds_well_formed: "holds led rows \<Longrightarrow> well_formed led"
proof (cases led)
  case None
  then show ?thesis by (simp add: well_formed_def)
next
  case (Some c)
  assume "holds led rows"
  with Some consider "c = []" | "c = ledger_of rows" by (auto simp: holds_def)
  then show ?thesis
  proof cases
    case 1
    with Some show ?thesis by (simp add: well_formed_def)
  next
    case 2
    have "last (ledger_of rows) = LF"
      using rows_end [of rows] by (auto simp: ledger_of_def ends_with_eol_def fputcsv_def)
    with 2 Some show ?thesis by (simp add: well_formed_def ledger_of_def)
  qed
qed

lemma waitlistCount_ledger_of:
  "waitlistCount (Some (ledger_of rows)) =
     length (php_file_skip_empty (concat (map fputcsv rows)))"
  by (simp add: waitlistCount_def ledger_of_def skip_empty_append [OF header_ends] count_header)

lemma csvRow_five: "length (csvRow p rq inp em) = 5"
  by (simp add: csvRow_def)

text \<open>A run of the script keeps the records and, when the submission is accepted, adds
  one.\<close>

lemma ledger_after_unaccepted:
  assumes "\<not> accepted (waitlist_php p rq led)"
  shows "ledger_after (waitlist_php p rq led) = led \<or>
         ledger_after (waitlist_php p rq led) = Some (case led of None \<Rightarrow> [] | Some c \<Rightarrow> c)"
  using assms
  by (auto simp: waitlist_php_def store_signup_def append_signup_def ledger_after_def
      accepted_def reply_def Let_def split: option.splits if_splits)

lemma holds_preserved:
  assumes "holds led rows"
  shows "(\<not> accepted (waitlist_php p rq led) \<longrightarrow>
            holds (ledger_after (waitlist_php p rq led)) rows) \<and>
         (accepted (waitlist_php p rq led) \<longrightarrow>
            (\<exists>row. holds (ledger_after (waitlist_php p rq led)) (rows @ [row])))"
proof (intro conjI impI)
  assume "\<not> accepted (waitlist_php p rq led)"
  from ledger_after_unaccepted [OF this] assms
  show "holds (ledger_after (waitlist_php p rq led)) rows"
    by (auto simp: holds_def split: option.splits)
next
  assume "accepted (waitlist_php p rq led)"
  from accepted_outcome [OF this] obtain inp raw where
    "waitlist_php p rq led =
       (\<lparr>status = 200,
         body = Some \<lparr>success = True, message = welcome_message, alreadyExists = None,
           waitlistPosition = Some (waitlistCount (Some
             (before_row led @ fputcsv (csvRow p rq inp (normalize_email raw))))),
           timestamp = Some (date_now p), demoMode = None\<rparr>\<rparr>,
        Some (before_row led @ fputcsv (csvRow p rq inp (normalize_email raw))),
        [''Waitlist signup: '' @ normalize_email raw @ '' from '' @ ipAddress p rq])"
    by blast
  then have "ledger_after (waitlist_php p rq led) =
      Some (ledger_of (rows @ [csvRow p rq inp (normalize_email raw)]))"
    by (simp add: ledger_after_def before_row_holds [OF assms] ledger_of_snoc)
  moreover have "list_all (\<lambda>r. length r = 5) (rows @ [csvRow p rq inp (normalize_email raw)])"
    using assms by (simp add: holds_def csvRow_five)
  ultimately have "holds (ledger_after (waitlist_php p rq led))
      (rows @ [csvRow p rq inp (normalize_email raw)])"
    by (simp add: holds_def)
  then show "\<exists>row. holds (ledger_after (waitlist_php p rq led)) (rows @ [row])" ..
qed


lemma USER_normal: "normalize_email ''USER@Example.com '' = ''USER@Example.com''"
  by code_simp

lemma USER_valid: "validate_email php0 (normalize_email ''USER@Example.com '')"
  by code_simp

lemma USER_plain: "plain ''USER@Example.com''"
  using plain_normalize_email [of "''USER@Example.com ''"] by (simp only: USER_normal)

lemma first_accepted:
  "waitlist_php php0 (post ''USER@Example.com '') None =
     (\<lparr>status = 200,
       body = Some \<lparr>success = True, message = welcome_message, alreadyExists = None,
         waitlistPosition = Some (waitlistCount (Some ledger_one)),
         timestamp = Some ''2024-01-15 10:30:00'', demoMode = None\<rparr>\<rparr>,
      Some ledger_one,
      [''Waitlist signup: USER@Example.com from 203.0.113.7''])"
proof -
  have ip: "ipAddress php0 (post ''USER@Example.com '') = ''203.0.113.7''"
    unfolding ipAddress_def post_def by code_simp
  show ?thesis
    using accepted_fresh [where led = None, OF post_simps(1) post_simps(3) _ USER_valid php0_ok(1,2)]
    by (simp add: csvRow_post USER_normal ledger_one_def first_row_def before_row_def
        php0_ok ip)
qed

lemma single_line_rows: "single_line first_row" "single_line second_row"
  by (simp_all add: single_line_def first_row_def second_row_def LF_def)

lemma well_formed_ledger_one: "well_formed (Some ledger_one)"
  by (simp add: well_formed_def ledger_one_def fputcsv_def)

lemma user_not_in_ledger_one:
  "\<not> email_exists php0 (normalize_email ''user@example.com'') ledger_one"
proof -
  have "\<not> email_exists php0 ''user@example.com'' (fputcsv first_row)"
    using email_exists_single_row [OF USER_plain, of _ _ php0 "''user@example.com''"]
      single_line_rows(1)
    by (simp add: first_row_def single_line_def)
  then show ?thesis
    by (simp add: ledger_one_def user_normal email_exists_append header_ends
        email_exists_header)
qed

lemma length_ledger_one: "length ledger_one \<le> maxFileSize"
proof -
  have "length (fputcsv first_row) \<le> 100"
    by (simp add: fputcsv_def first_row_def csv_field_def needs_enclosure_def delimiter_def
        enclosure_def escape_char_def LF_def CR_def)
  then show ?thesis
    by (simp add: ledger_one_def length_header maxFileSize_def)
qed

lemma count_ledger_one: "waitlistCount (Some ledger_one) = 1"
proof -
  have "waitlistCount (Some (before_row None @ fputcsv first_row)) = 1 + waitlistCount None"
    unfolding first_row_def
    by (rule count_after_row) (simp_all add: well_formed_def single_line_def LF_def)
  then show ?thesis by (simp add: before_row_def ledger_one_def waitlistCount_def)
qed

lemma holds_ledger_one: "holds (Some ledger_one) [first_row]"
  by (simp add: holds_def ledger_one_def ledger_of_def first_row_def)



text \<open>The client address in terms of the request headers.\<close>

lemma ipAddress_eq:
  "ipAddress p rq =
     (let first = trim (takeWhile (\<lambda>c. c \<noteq> CHR '','')
            (case http_x_forwarded_for rq of
               Some x \<Rightarrow> x
             | None \<Rightarrow> (case remote_addr rq of Some a \<Rightarrow> a | None \<Rightarrow> [])))
      in if validate_ip p first then first else ''unknown'')"
  by (simp add: ipAddress_def explode_first Let_def delimiter_def)

text \<open>Claim C7. After an accepted submission the file ends with a row whose fourth field is
  the trimmed first entry of the comma-separated \<open>X-Forwarded-For\<close> header when that header
  is present, otherwise of \<open>REMOTE_ADDR\<close>, replaced by \<open>unknown\<close> when it is not a valid
  address; its fifth field is the first 200 characters of the user agent.\<close>

theorem stored_address_and_agent:
  assumes "accepted (waitlist_php p rq led)"
  shows "\<exists>before em ts src.
           ledger_after (waitlist_php p rq led) =
             Some (before @ fputcsv [em, ts, src,
               (let first = trim (takeWhile (\<lambda>c. c \<noteq> CHR '','')
                      (case http_x_forwarded_for rq of
                         Some x \<Rightarrow> x
                       | None \<Rightarrow> (case remote_addr rq of Some a \<Rightarrow> a | None \<Rightarrow> [])))
                in if validate_ip p first then first else ''unknown''),
               take 200 (case http_user_agent rq of Some u \<Rightarrow> u | None \<Rightarrow> [])])"
proof -
  from accepted_outcome [OF assms] obtain inp raw where
    "waitlist_php p rq led =
       (\<lparr>status = 200,
         body = Some \<lparr>success = True, message = welcome_message, alreadyExists = None,
           waitlistPosition = Some (waitlistCount (Some
             (before_row led @ fputcsv (csvRow p rq inp (normalize_email raw))))),
           timestamp = Some (date_now p), demoMode = None\<rparr>\<rparr>,
        Some (before_row led @ fputcsv (csvRow p rq inp (normalize_email raw))),
        [''Waitlist signup: '' @ normalize_email raw @ '' from '' @ ipAddress p rq])"
    by blast
  then have "ledger_after (waitlist_php p rq led) =
      Some (before_row led @ fputcsv (csvRow p rq inp (normalize_email raw)))"
    by (simp add: ledger_after_def)
  then show ?thesis
    unfolding csvRow_def substr0_def ipAddress_eq by blast
qed

lemma proxied_simps:
  "request_method proxied = ''POST''"
  "input proxied = Some \<lparr>email = Some (JString ''user@example.com''), source = Some (JString ''landing_page'')\<rparr>"
  "http_x_forwarded_for proxied = Some ''198.51.100.4, 10.0.0.1''"
  "http_user_agent proxied = Some (replicate 300 (CHR ''A''))"
  by (simp_all add: proxied_def post_def)

lemma proxied_address:
  "trim (takeWhile (\<lambda>c. c \<noteq> CHR '','') ''198.51.100.4, 10.0.0.1'') = ''198.51.100.4''"
  "trim ''198.51.100.4'' = ''198.51.100.4''"
  "validate_ip php0 ''198.51.100.4''"
  by code_simp+

theorem stored_address_and_agent_witness:
  "accepted (waitlist_php php0 proxied None) \<and>
   (\<exists>before em ts src.
      ledger_after (waitlist_php php0 proxied None) =
        Some (before @ fputcsv [em, ts, src, ''198.51.100.4'', replicate 200 (CHR ''A'')]))"
proof -
  have acc: "accepted (waitlist_php php0 proxied None)"
    using accepted_fresh [where led = None, OF proxied_simps(1,2) _ user_valid php0_ok(1,2)]
    by (simp add: accepted_def reply_def)
  show ?thesis
    using stored_address_and_agent [OF acc] acc
    by (simp add: proxied_simps proxied_address Let_def)
qed

section \<open>Claims about repeated submissions\<close>

lemma waitlist_php_duplicate:
  assumes "request_method rq = ''POST''" and "submitted_email rq = Some raw"
    and "validate_email p (normalize_email raw)"
    and "email_exists p (normalize_email raw) c"
  shows "waitlist_php p rq (Some c) =
           (\<lparr>status = 200,
             body = Some \<lparr>success = True, message = already_message,
               alreadyExists = Some True, waitlistPosition = None, timestamp = None,
               demoMode = None\<rparr>\<rparr>,
            Some c, [])"
proof -
  from assms(2) obtain inp where "input rq = Some inp" "email_arg inp = Some raw"
    using submitted_emailD by blast
  then show ?thesis
    using assms by (simp add: waitlist_php_post store_signup_def)
qed

lemma stored_then_found:
  assumes "accepted (waitlist_php p rq led)" and "well_formed led"
    and "submitted_email rq = Some raw"
  shows "\<exists>rest. ledger_after (waitlist_php p rq led) =
             Some (before_row led @ fputcsv (normalize_email raw # rest)) \<and>
           ends_with_eol (before_row led @ fputcsv (normalize_email raw # rest)) \<and>
           (\<forall>p2. email_exists p2 (normalize_email raw)
                   (before_row led @ fputcsv (normalize_email raw # rest))) \<and>
           validate_email p (normalize_email raw)"
proof -
  from accepted_outcome [OF assms(1)] obtain inp raw' where
    i: "input rq = Some inp" "email_arg inp = Some raw'" and
    v: "validate_email p (normalize_email raw')" and
    out: "waitlist_php p rq led =
       (\<lparr>status = 200,
         body = Some \<lparr>success = True, message = welcome_message, alreadyExists = None,
           waitlistPosition = Some (waitlistCount (Some
             (before_row led @ fputcsv (csvRow p rq inp (normalize_email raw'))))),
           timestamp = Some (date_now p), demoMode = None\<rparr>\<rparr>,
        Some (before_row led @ fputcsv (csvRow p rq inp (normalize_email raw'))),
        [''Waitlist signup: '' @ normalize_email raw' @ '' from '' @ ipAddress p rq])"
    by blast
  from i assms(3) have raw: "raw' = raw" by (simp add: submitted_email_def)
  obtain g fs where row: "csvRow p rq inp (normalize_email raw) = normalize_email raw # g # fs"
    using csvRow_shape by blast
  have 1: "ledger_after (waitlist_php p rq led) =
      Some (before_row led @ fputcsv (normalize_email raw # g # fs))"
    using out by (simp add: ledger_after_def raw row)
  have 2: "ends_with_eol (before_row led @ fputcsv (normalize_email raw # g # fs))"
    by (intro ends_with_eol_append fputcsv_ends fputcsv_nonempty)
  have 3: "email_exists p2 (normalize_email raw)
      (before_row led @ fputcsv (normalize_email raw # g # fs))" for p2
    using email_exists_own_row [OF plain_normalize_email]
    by (simp add: email_exists_append before_row_ends [OF assms(2)])
  from 1 2 3 v raw show ?thesis by blast
qed

text \<open>Claim C3. After an accepted submission to a well-formed ledger (as every ledger
  written by the script is), a second POST submission with the same normalized email is
  answered with status 200, \<open>success = true\<close> and \<open>alreadyExists = true\<close>; the ledger is
  returned as it was, so no row is written and the record count is unchanged.\<close>

theorem resubmission_idempotent:
  assumes "accepted (waitlist_php p rq led)" and "well_formed led"
    and "submitted_email rq = Some raw"
    and "request_method rq2 = ''POST''" and "submitted_email rq2 = Some raw2"
    and "normalize_email raw2 = normalize_email raw"
    and "validate_email p2 = validate_email p"
  shows "waitlist_php p2 rq2 (ledger_after (waitlist_php p rq led)) =
           (\<lparr>status = 200,
             body = Some \<lparr>success = True, message = already_message,
               alreadyExists = Some True, waitlistPosition = None, timestamp = None,
               demoMode = None\<rparr>\<rparr>,
            ledger_after (waitlist_php p rq led), []) \<and>
         waitlistCount (ledger_after (waitlist_php p2 rq2 (ledger_after (waitlist_php p rq led))))
           = waitlistCount (ledger_after (waitlist_php p rq led))"
proof -
  from stored_then_found [OF assms(1-3)] obtain rest where
    led': "ledger_after (waitlist_php p rq led) =
             Some (before_row led @ fputcsv (normalize_email raw # rest))"
    and found: "email_exists p2 (normalize_email raw)
                   (before_row led @ fputcsv (normalize_email raw # rest))"
    and valid: "validate_email p (normalize_email raw)"
    by blast
  have v2: "validate_email p2 (normalize_email raw2)"
    using valid by (simp add: assms(6,7))
  have f2: "email_exists p2 (normalize_email raw2)
      (before_row led @ fputcsv (normalize_email raw # rest))"
    using found by (simp add: assms(6))
  note waitlist_php_duplicate [OF assms(4,5) v2 f2]
  then show ?thesis unfolding led' by (simp add: ledger_after_def)
qed

theorem resubmission_idempotent_witness:
  "accepted (waitlist_php php0 (post ''USER@Example.com '') None) \<and>
   ledger_after (waitlist_php php0 (post ''USER@Example.com '') None) = Some ledger_one \<and>
   waitlist_php php0 (post ''USER@Example.com '') (Some ledger_one) =
     (\<lparr>status = 200,
       body = Some \<lparr>success = True, message = already_message,
         alreadyExists = Some True, waitlistPosition = None, timestamp = None,
         demoMode = None\<rparr>\<rparr>,
      Some ledger_one, [])"
proof -
  have acc: "accepted (waitlist_php php0 (post ''USER@Example.com '') None)"
    by (simp add: first_accepted accepted_def reply_def)
  have led: "ledger_after (waitlist_php php0 (post ''USER@Example.com '') None) = Some ledger_one"
    by (simp add: first_accepted ledger_after_def)
  have wf: "well_formed None" by (simp add: well_formed_def)
  show ?thesis
    using resubmission_idempotent [OF acc wf post_simps(2) post_simps(1) post_simps(2) refl refl]
      acc led
    by simp
qed



lemma second_accepted:
  "waitlist_php php0 (post ''user@example.com'') (Some ledger_one) =
     (\<lparr>status = 200,
       body = Some \<lparr>success = True, message = welcome_message, alreadyExists = None,
         waitlistPosition = Some 2,
         timestamp = Some ''2024-01-15 10:30:00'', demoMode = None\<rparr>\<rparr>,
      Some (ledger_one @ fputcsv second_row),
      [''Waitlist signup: user@example.com from 203.0.113.7''])"
proof -
  have ip: "ipAddress php0 (post ''user@example.com'') = ''203.0.113.7''"
    unfolding ipAddress_def post_def by code_simp
  have ne: "ledger_one \<noteq> []" by (simp add: ledger_one_def fputcsv_def)
  have fresh: "Some ledger_one = None \<or>
      (\<exists>c. Some ledger_one = Some c \<and>
           \<not> email_exists php0 (normalize_email ''user@example.com'') c \<and>
           length c \<le> maxFileSize)"
    using user_not_in_ledger_one length_ledger_one by simp
  have count: "waitlistCount (Some (ledger_one @ fputcsv second_row)) = 2"
    using count_after_row [OF well_formed_ledger_one, of "''user@example.com''"
        "''2024-01-15 10:30:00''" "[''landing_page'', ''203.0.113.7'', ''Mozilla/5.0'']"]
      single_line_rows(2) ne
    by (simp add: second_row_def before_row_def count_ledger_one)
  show ?thesis
    using accepted_fresh [OF post_simps(1) post_simps(3) _ user_valid php0_ok(1,2) fresh]
    by (simp add: csvRow_post user_normal before_row_def ne php0_ok ip count
        second_row_def [symmetric])
qed

lemma first_column_row:
  "plain em \<Longrightarrow> str_getcsv0 enc (fputcsv (em # g # fs)) = Some em"
  by (simp add: fputcsv_plain_first str_getcsv0_row_line)

lemma columns_of_both:
  "existingEmails php0 (ledger_one @ fputcsv second_row) =
     [Some ''email'', Some ''USER@Example.com'', Some ''user@example.com'']"
proof -
  have 1: "php_file (ledger_one @ fputcsv second_row) =
      [fputcsv csv_header, fputcsv first_row, fputcsv second_row]"
    by (simp add: ledger_one_def php_file_append header_ends fputcsv_ends
        ends_with_eol_append fputcsv_nonempty php_file_header php_file_single_row
        single_line_rows)
  have 2: "str_getcsv0 enc (fputcsv first_row) = Some ''USER@Example.com''" for enc
    unfolding first_row_def by (rule first_column_row [OF USER_plain])
  have 3: "str_getcsv0 enc (fputcsv second_row) = Some ''user@example.com''" for enc
    unfolding second_row_def by (rule first_column_row [OF user_plain])
  show ?thesis by (simp add: existingEmails_def 1 2 3 first_column_header)
qed


end
